theory Spec2Isabelle
  imports Complex_Main "HOL-Library.Sublist" "HOL-Library.AList"
begin

section \<open>Python strings and slices used by the auditor\<close>

text \<open>
  Strings are byte lists. The operations below are the ones \<^verbatim>\<open>code_auditor.py\<close> calls on
  \<^verbatim>\<open>str\<close> values: \<^verbatim>\<open>startswith\<close>, \<^verbatim>\<open>endswith\<close>, the substring test \<^verbatim>\<open>a in b\<close>,
  \<^verbatim>\<open>split('.')\<close>, \<^verbatim>\<open>'.'.join\<close>, \<^verbatim>\<open>replace(os.sep, '.')\<close>, \<^verbatim>\<open>lower()\<close> and the slice
  \<^verbatim>\<open>s[:-3]\<close>. Identifiers and file names are taken to be ASCII, where \<^verbatim>\<open>lower()\<close> only
  touches the letters A to Z.
\<close>

definition startswith :: "string \<Rightarrow> string \<Rightarrow> bool" where
  "startswith s p = prefix p s"

definition endswith :: "string \<Rightarrow> string \<Rightarrow> bool" where
  "endswith s p = suffix p s"

definition py_in :: "string \<Rightarrow> string \<Rightarrow> bool" where
  "py_in sub s = sublist sub s"

fun split_on :: "char \<Rightarrow> string \<Rightarrow> string list" where
  "split_on sep [] = [[]]"
| "split_on sep (c # cs) =
     (if c = sep then [] # split_on sep cs
      else (case split_on sep cs of
              [] \<Rightarrow> [[c]]
            | w # ws \<Rightarrow> (c # w) # ws))"

fun join :: "string \<Rightarrow> string list \<Rightarrow> string" where
  "join sep [] = []"
| "join sep [w] = w"
| "join sep (w # v # ws) = w @ sep @ join sep (v # ws)"

definition replace_char :: "char \<Rightarrow> char \<Rightarrow> string \<Rightarrow> string" where
  "replace_char old new s = map (\<lambda>c. if c = old then new else c) s"

definition lower_char :: "char \<Rightarrow> char" where
  "lower_char c =
     (let n = (of_char c :: nat) in if 65 \<le> n \<and> n \<le> 90 then char_of (n + 32) else c)"

definition lower :: "string \<Rightarrow> string" where
  "lower s = map lower_char s"

text \<open>
  \<^verbatim>\<open>xs[:stop]\<close> for any integer \<^verbatim>\<open>stop\<close>: a negative stop counts from the end and is
  clamped at 0, a positive one is clamped at the length. No slice raises.
\<close>

definition slice_to :: "'a list \<Rightarrow> int \<Rightarrow> 'a list" where
  "slice_to xs stop =
     (let n = int (length xs);
          s = (if stop < 0 then max 0 (n + stop) else min stop n)
      in take (nat s) xs)"

definition os_sep :: char where
  "os_sep = CHR ''/''"

definition dquote :: char where
  "dquote = CHR 0x22"

section \<open>The syntax tree\<close>

text \<open>
  \<^verbatim>\<open>ast.parse\<close> belongs to the Python standard library. Its trees are modelled by the
  node classes that \<^verbatim>\<open>_analyze_file\<close> tells apart with \<^verbatim>\<open>isinstance\<close>; every other class
  (\<^verbatim>\<open>Module\<close>, \<^verbatim>\<open>AsyncFunctionDef\<close>, \<^verbatim>\<open>IfExp\<close>, expressions, ...) is \<open>Other\<close>. Each node
  carries its child nodes in the order of \<^verbatim>\<open>ast.iter_child_nodes\<close>. A class definition
  keeps its \<^verbatim>\<open>body\<close> apart from the children before it (bases, keywords) and after it
  (decorators), because the method list is read from \<^verbatim>\<open>node.body\<close> alone. The children of
  an import are its \<^verbatim>\<open>alias\<close> nodes.
\<close>

datatype node =
    FunctionDef string "node list"
  | ClassDef string "node list" "node list" "node list"
  | If "node list"
  | For "node list"
  | While "node list"
  | Try "node list"
  | With "node list"
  | Import "string list"
  | ImportFrom "string option" nat "string list"
  | Alias string
  | Other "node list"

fun children :: "node \<Rightarrow> node list" where
  "children (FunctionDef name cs) = cs"
| "children (ClassDef name pre body post) = pre @ body @ post"
| "children (If cs) = cs"
| "children (For cs) = cs"
| "children (While cs) = cs"
| "children (Try cs) = cs"
| "children (With cs) = cs"
| "children (Import names) = map Alias names"
| "children (ImportFrom modname level names) = map Alias names"
| "children (Alias name) = []"
| "children (Other cs) = cs"

fun weight :: "node \<Rightarrow> nat" where
  "weight (FunctionDef name cs) = Suc (sum_list (map weight cs))"
| "weight (ClassDef name pre body post) =
     Suc (sum_list (map weight pre) + sum_list (map weight body) + sum_list (map weight post))"
| "weight (If cs) = Suc (sum_list (map weight cs))"
| "weight (For cs) = Suc (sum_list (map weight cs))"
| "weight (While cs) = Suc (sum_list (map weight cs))"
| "weight (Try cs) = Suc (sum_list (map weight cs))"
| "weight (With cs) = Suc (sum_list (map weight cs))"
| "weight (Import names) = Suc (length names)"
| "weight (ImportFrom modname level names) = Suc (length names)"
| "weight (Alias name) = Suc 0"
| "weight (Other cs) = Suc (sum_list (map weight cs))"

lemma sum_weight_aliases: "sum_list (map (weight \<circ> Alias) names) = length names"
  by (induction names) simp_all

lemma weight_children: "weight n = Suc (sum_list (map weight (children n)))"
  by (cases n) (simp_all add: sum_weight_aliases)

lemma weight_child_less: "c \<in> set (children n) \<Longrightarrow> weight c < weight n"
proof -
  assume "c \<in> set (children n)"
  then have "weight c \<le> sum_list (map weight (children n))"
    by (simp add: member_le_sum_list)
  then show ?thesis
    by (simp add: weight_children [of n])
qed

text \<open>
  \<^verbatim>\<open>ast.walk\<close>: a queue starts with the root; the front node is taken off, its children are
  put at the back, and the node is yielded. The order is breadth first.
\<close>

function walk_queue :: "node list \<Rightarrow> node list" where
  "walk_queue [] = []"
| "walk_queue (n # todo) = n # walk_queue (todo @ children n)"
  by pat_completeness auto
termination
  by (relation "measure (\<lambda>todo. sum_list (map weight todo))")
     (simp_all add: weight_children)

definition walk :: "node \<Rightarrow> node list" where
  "walk n = walk_queue [n]"

text \<open>The nodes of a subtree, by recursion on the tree: the node and, for each child, its nodes.\<close>

function subnodes :: "node \<Rightarrow> node list" where
  "subnodes n = n # concat (map subnodes (children n))"
  by pat_completeness auto
termination
  by (relation "measure weight") (simp_all add: weight_child_less)

section \<open>The auditor's state\<close>

text \<open>
  A path below the root directory is the list of directory names leading to the file and
  the file's name (\<^verbatim>\<open>Path(root) / file\<close>; \<^verbatim>\<open>file.name\<close> is the second component). What
  opening, reading and parsing a file yields is fixed by the file system, which the pass
  only reads: \<open>ReadFails\<close> when \<^verbatim>\<open>open\<close> or \<^verbatim>\<open>f.read()\<close> raises, \<open>ParseFails content\<close> when
  \<^verbatim>\<open>ast.parse(content)\<close> raises, \<open>Parses content tree\<close> when it returns \<open>tree\<close>.
\<close>

type_synonym path = "string list \<times> string"

datatype read_result = ReadFails | ParseFails string | Parses string node

datatype py_exception = ReadException | ParseException | ZeroDivisionError

record function_record =
  complexity :: nat

record class_record =
  methods :: "string list"
  is_strategy :: bool

text \<open>
  The fields of \<^verbatim>\<open>CodebaseAuditor\<close>. The dictionaries are association lists in insertion
  order, written with \<open>AList.update\<close>: a new key goes to the end, an old key keeps its
  place and takes the new value, as a Python \<^verbatim>\<open>dict\<close> does. \<open>python_files\<close> keeps, beside
  each path, what reading that path yields.
\<close>

record auditor =
  python_files :: "(path \<times> read_result) list"
  project_modules :: "string set"
  functions_dict :: "(string \<times> function_record) list"
  classes :: "(string \<times> class_record) list"
  main_entry_points :: "string list"
  dependencies :: "(string \<times> string set) list"
  data_files :: "path list"

definition init :: auditor where
  "init = \<lparr>python_files = [], project_modules = {}, functions_dict = [], classes = [],
           main_entry_points = [], dependencies = [], data_files = []\<rparr>"

definition rel_path :: "path \<Rightarrow> string" where
  "rel_path p = join [os_sep] (fst p @ [snd p])"

definition module_name_of :: "path \<Rightarrow> string" where
  "module_name_of p = slice_to (replace_char os_sep (CHR ''.'') (rel_path p)) (- 3)"

section \<open>File discovery\<close>

text \<open>
  A directory holds its files and its subdirectories, each list in the order \<^verbatim>\<open>os.walk\<close>
  reports it. \<^verbatim>\<open>os.walk\<close> is top-down: the files of a directory are handled first, then
  each subdirectory that survives the pruning \<^verbatim>\<open>dirs[:] = [...]\<close> is walked in turn. Every
  file carries what reading it as Python source would yield; only files ending in \<open>.py\<close>
  are ever read.
\<close>

datatype dir_tree = Dir "(string \<times> read_result) list" "(string \<times> dir_tree) list"

definition excluded_dirs :: "string list" where
  "excluded_dirs = [''__pycache__'', ''_build'', ''.pytest_cache'', ''.venv'']"

definition data_extensions :: "string list" where
  "data_extensions = [''.csv'', ''.xlsx'', ''.json'', ''.yaml'']"

definition discover_file :: "string list \<Rightarrow> string \<times> read_result \<Rightarrow> auditor \<Rightarrow> auditor" where
  "discover_file dirpath entry st =
     (let file = fst entry; file_path = (dirpath, file) in
      if endswith file ''.py'' then
        st\<lparr>python_files := python_files st @ [(file_path, snd entry)],
           project_modules := insert (module_name_of file_path) (project_modules st)\<rparr>
      else if list_ex (endswith file) data_extensions then
        st\<lparr>data_files := data_files st @ [file_path]\<rparr>
      else st)"

fun discover_dir :: "string list \<Rightarrow> dir_tree \<Rightarrow> auditor \<Rightarrow> auditor"
  and discover_subdirs :: "string list \<Rightarrow> (string \<times> dir_tree) list \<Rightarrow> auditor \<Rightarrow> auditor" where
  "discover_dir dirpath (Dir files dirs) st = discover_subdirs dirpath dirs (fold (discover_file dirpath) files st)"
| "discover_subdirs dirpath [] st = st"
| "discover_subdirs dirpath ((d, sub) # rest) st =
     discover_subdirs dirpath rest
       (if d \<in> set excluded_dirs then st else discover_dir (dirpath @ [d]) sub st)"

definition discover_files :: "dir_tree \<Rightarrow> auditor \<Rightarrow> auditor" where
  "discover_files fs st = discover_dir [] fs st"

section \<open>Dependency resolution\<close>

definition resolve_dep :: "string \<Rightarrow> string \<Rightarrow> nat \<Rightarrow> string" where
  "resolve_dep module_name dep_name level =
     (if level > 0 then
        (let parts = split_on (CHR ''.'') module_name;
             base = slice_to parts (- int level)
         in join ''.'' (base @ (if dep_name \<noteq> [] then [dep_name] else [])))
      else dep_name)"

definition deps_of :: "auditor \<Rightarrow> string \<Rightarrow> string set" where
  "deps_of st module_name =
     (case map_of (dependencies st) module_name of None \<Rightarrow> {} | Some s \<Rightarrow> s)"

definition add_dependency :: "auditor \<Rightarrow> string \<Rightarrow> string \<Rightarrow> nat \<Rightarrow> auditor" where
  "add_dependency st module_name dep_name level =
     (let resolved_dep = resolve_dep module_name dep_name level in
      if \<exists>proj_mod \<in> project_modules st. proj_mod = resolved_dep \<and> startswith resolved_dep proj_mod
      then st\<lparr>dependencies :=
                AList.update module_name (insert resolved_dep (deps_of st module_name))
                  (dependencies st)\<rparr>
      else st)"

section \<open>Analysis of one file\<close>

definition is_branch :: "node \<Rightarrow> bool" where
  "is_branch n = (case n of If cs \<Rightarrow> True | For cs \<Rightarrow> True | While cs \<Rightarrow> True
                   | Try cs \<Rightarrow> True | With cs \<Rightarrow> True | _ \<Rightarrow> False)"

definition node_complexity :: "node \<Rightarrow> nat" where
  "node_complexity n = length (filter is_branch (walk n)) + 1"

fun method_names :: "node list \<Rightarrow> string list" where
  "method_names [] = []"
| "method_names (FunctionDef name cs # items) = name # method_names items"
| "method_names (item # items) = method_names items"

definition main_guard :: string where
  "main_guard = ''if __name__ == '' @ [dquote] @ ''__main__'' @ [dquote]"

fun visit :: "string \<Rightarrow> node \<Rightarrow> auditor \<Rightarrow> auditor" where
  "visit module_name (FunctionDef name cs) st =
     st\<lparr>functions_dict :=
          AList.update (module_name @ ''.'' @ name)
            \<lparr>complexity = node_complexity (FunctionDef name cs)\<rparr> (functions_dict st)\<rparr>"
| "visit module_name (ClassDef name pre body post) st =
     st\<lparr>classes :=
          AList.update (module_name @ ''.'' @ name)
            \<lparr>methods = method_names body,
             is_strategy = (py_in ''strategy'' (lower name) \<or> py_in ''strategies'' module_name)\<rparr>
            (classes st)\<rparr>"
| "visit module_name (Import names) st =
     fold (\<lambda>alias s. add_dependency s module_name alias 0) names st"
| "visit module_name (ImportFrom modname level names) st =
     (case modname of
        None \<Rightarrow> st
      | Some dep_name \<Rightarrow> if dep_name \<noteq> [] then add_dependency st module_name dep_name level else st)"
| "visit module_name n st = st"

text \<open>
  The body of the \<^verbatim>\<open>try\<close> in \<^verbatim>\<open>_analyze_file\<close>. Reading and parsing come first and are the
  only statements that can raise; both come before any write to the state. The handler
  \<^verbatim>\<open>except Exception\<close> prints a warning and returns, so the state is the one before the call.
\<close>

fun analyze_body :: "auditor \<Rightarrow> string \<Rightarrow> read_result \<Rightarrow> py_exception + auditor" where
  "analyze_body st module_name ReadFails = Inl ReadException"
| "analyze_body st module_name (ParseFails content) = Inl ParseException"
| "analyze_body st module_name (Parses content tree) =
     Inr (fold (visit module_name) (walk tree)
            (if py_in main_guard content
             then st\<lparr>main_entry_points := main_entry_points st @ [module_name]\<rparr> else st))"

definition analyze_file :: "auditor \<Rightarrow> path \<times> read_result \<Rightarrow> auditor" where
  "analyze_file st file =
     (case analyze_body st (module_name_of (fst file)) (snd file) of
        Inl e \<Rightarrow> st
      | Inr st' \<Rightarrow> st')"

definition analyze_all :: "auditor \<Rightarrow> auditor" where
  "analyze_all st = fold (\<lambda>file s. analyze_file s file) (python_files st) st"

text \<open>Steps 1 and 2 of \<^verbatim>\<open>run\<close>: discovery, then the analysis of every discovered file.\<close>

definition run_analysis :: "dir_tree \<Rightarrow> auditor" where
  "run_analysis fs = analyze_all (discover_files fs init)"

section \<open>Report values\<close>

text \<open>The type column of \<^verbatim>\<open>generate_data_flow\<close>, computed from \<^verbatim>\<open>file.name\<close>.\<close>

definition file_type :: "string \<Rightarrow> string" where
  "file_type name =
     (if py_in ''.csv'' name then ''Tabular Data''
      else if py_in ''.xlsx'' name then ''Excel Sheet''
      else if py_in ''.yaml'' name then ''Config''
      else ''JSON Data'')"

definition data_flow_rows :: "auditor \<Rightarrow> (string \<times> string) list" where
  "data_flow_rows st = map (\<lambda>file. (rel_path file, file_type (snd file))) (data_files st)"

text \<open>
  The numbers of \<^verbatim>\<open>generate_summary_stats\<close>. Python's \<^verbatim>\<open>/\<close> raises \<^verbatim>\<open>ZeroDivisionError\<close> on
  a zero divisor; its quotient is taken exactly here (a rational), before the rounding to
  a float.
\<close>

definition truediv :: "nat \<Rightarrow> nat \<Rightarrow> py_exception + rat" where
  "truediv a b = (if b = 0 then Inl ZeroDivisionError else Inr (of_nat a / of_nat b))"

record summary =
  files_analyzed :: nat
  module_count :: nat
  total_funcs :: nat
  total_classes :: nat
  strategy_count :: nat
  avg_complexity :: rat
  total_deps :: nat

definition generate_summary_stats :: "auditor \<Rightarrow> py_exception + summary" where
  "generate_summary_stats st =
     (let n_funcs = length (functions_dict st);
          n_classes = length (classes st);
          avg = (if n_funcs > 0
                 then truediv (sum_list (map (\<lambda>f. complexity (snd f)) (functions_dict st))) n_funcs
                 else Inr 0)
      in case avg of
           Inl e \<Rightarrow> Inl e
         | Inr a \<Rightarrow>
             Inr \<lparr>files_analyzed = length (python_files st),
                  module_count = card (project_modules st),
                  total_funcs = n_funcs,
                  total_classes = n_classes,
                  strategy_count = length (filter (\<lambda>c. is_strategy (snd c)) (classes st)),
                  avg_complexity = a,
                  total_deps = sum_list (map (\<lambda>d. card (snd d)) (dependencies st))\<rparr>)"

section \<open>Notions used to state the properties\<close>

text \<open>
  The number of branching constructs in a subtree, by recursion on the tree: one for the
  node when it is a conditional, a loop, a \<^verbatim>\<open>try\<close> or a \<^verbatim>\<open>with\<close>, plus the numbers of all its
  children, whatever their kind (nested function and class bodies included).
\<close>

function branch_count :: "node \<Rightarrow> nat" where
  "branch_count n = (if is_branch n then 1 else 0) + sum_list (map branch_count (children n))"
  by pat_completeness auto
termination
  by (relation "measure weight") (simp_all add: weight_child_less)

text \<open>
  The candidate targets of one import node, after relative-level resolution: every alias of
  a plain \<^verbatim>\<open>import\<close>, and the module of a \<^verbatim>\<open>from\<close>-import when it names one.
\<close>

fun import_targets :: "string \<Rightarrow> node \<Rightarrow> string set" where
  "import_targets module_name (Import names) =
     (\<lambda>alias. resolve_dep module_name alias 0) ` set names"
| "import_targets module_name (ImportFrom (Some dep_name) level names) =
     (if dep_name \<noteq> [] then {resolve_dep module_name dep_name level} else {})"
| "import_targets module_name n = {}"

text \<open>
  The strategy flag as the specification words it: the class name contains \<open>strategy\<close> or
  \<open>strategies\<close> without regard to case, or \<open>strategies\<close> is one of the dotted components of
  the module path. It is compared with the flag that \<^verbatim>\<open>_analyze_file\<close> computes.
\<close>

definition is_strategy_spec :: "string \<Rightarrow> string \<Rightarrow> bool" where
  "is_strategy_spec name module_name =
     (py_in ''strategy'' (lower name) \<or> py_in ''strategies'' (lower name)
      \<or> ''strategies'' \<in> set (split_on (CHR ''.'') module_name))"

text \<open>
  The directories that \<^verbatim>\<open>os.walk\<close> reports after pruning, each with its path below the root:
  the directory itself, then what lies below each subdirectory whose name is not excluded.
\<close>

fun walked_dirs :: "string list \<Rightarrow> dir_tree \<Rightarrow> (string list \<times> dir_tree) list"
  and walked_subdirs :: "string list \<Rightarrow> (string \<times> dir_tree) list \<Rightarrow> (string list \<times> dir_tree) list" where
  "walked_dirs dirpath (Dir files dirs) = (dirpath, Dir files dirs) # walked_subdirs dirpath dirs"
| "walked_subdirs dirpath [] = []"
| "walked_subdirs dirpath ((d, sub) # rest) =
     (if d \<in> set excluded_dirs then [] else walked_dirs (dirpath @ [d]) sub)
     @ walked_subdirs dirpath rest"

text \<open>
  The kind of a data file with the priority the specification gives: tabular, spreadsheet,
  structured data, configuration. It is compared with \<open>file_type\<close>.
\<close>

definition file_type_spec :: "string \<Rightarrow> string" where
  "file_type_spec name =
     (if py_in ''.csv'' name then ''Tabular Data''
      else if py_in ''.xlsx'' name then ''Excel Sheet''
      else if py_in ''.json'' name then ''JSON Data''
      else ''Config'')"

text \<open>
  The scenario of the specification: a root with the directory \<open>pkg\<close> holding \<open>a.py\<close>, which
  defines \<open>f\<close> with one conditional, and \<open>b.py\<close>, whose only statement is
  \<^verbatim>\<open>from . import a\<close>. \<^verbatim>\<open>ast.parse\<close> gives that statement the node
  \<^verbatim>\<open>ImportFrom(module=None, names=[alias(name='a')], level=1)\<close>.
\<close>

definition scenario_a_tree :: node where
  "scenario_a_tree = Other [FunctionDef ''f'' [Other [], If [Other [], Other []]]]"

definition scenario_b_tree :: node where
  "scenario_b_tree = Other [ImportFrom None 1 [''a'']]"

definition scenario_fs :: dir_tree where
  "scenario_fs =
     Dir [] [(''pkg'',
              Dir [(''a.py'', Parses ''def f():\<newline>    if True: pass\<newline>'' scenario_a_tree),
                   (''b.py'', Parses ''from . import a\<newline>'' scenario_b_tree)] [])]"

section \<open>Breadth-first walk and the subtree\<close>

declare subnodes.simps [simp del]
declare branch_count.simps [simp del]

lemma set_subnodes: "set (subnodes n) = insert n (\<Union>c\<in>set (children n). set (subnodes c))"
  by (simp add: subnodes.simps [of n])

lemma count_subnodes:
  "length (filter P (subnodes n)) =
     (if P n then 1 else 0) + sum_list (map (\<lambda>c. length (filter P (subnodes c))) (children n))"
  by (simp add: subnodes.simps [of n] filter_concat length_concat comp_def)

lemma walk_queue_count:
  "length (filter P (walk_queue todo)) = sum_list (map (\<lambda>n. length (filter P (subnodes n))) todo)"
proof (induction todo rule: walk_queue.induct)
  case 1
  show ?case by simp
next
  case (2 n todo)
  then show ?case by (simp add: count_subnodes [of P n])
qed

lemma walk_queue_set: "set (walk_queue todo) = (\<Union>n\<in>set todo. set (subnodes n))"
proof (induction todo rule: walk_queue.induct)
  case 1
  show ?case by simp
next
  case (2 n todo)
  then show ?case by (auto simp: set_subnodes [of n])
qed

lemma set_walk: "set (walk t) = set (subnodes t)"
  by (simp add: walk_def walk_queue_set del: walk_queue.simps)

lemma branch_count_subnodes: "branch_count n = length (filter is_branch (subnodes n))"
proof (induction n rule: subnodes.induct)
  case (1 n)
  have "sum_list (map branch_count (children n)) =
        sum_list (map (\<lambda>c. length (filter is_branch (subnodes c))) (children n))"
    using 1 by (simp cong: map_cong)
  then show ?case
    by (simp add: branch_count.simps [of n] count_subnodes [of is_branch n])
qed

lemma node_complexity_branch_count: "node_complexity n = 1 + branch_count n"
  by (simp add: node_complexity_def walk_def walk_queue_count branch_count_subnodes
        del: walk_queue.simps)

section \<open>What a visit leaves alone\<close>

lemma add_dependency_fields:
  "python_files (add_dependency st m d l) = python_files st"
  "project_modules (add_dependency st m d l) = project_modules st"
  "functions_dict (add_dependency st m d l) = functions_dict st"
  "classes (add_dependency st m d l) = classes st"
  "main_entry_points (add_dependency st m d l) = main_entry_points st"
  "data_files (add_dependency st m d l) = data_files st"
  by (simp_all add: add_dependency_def Let_def)

lemma deps_of_add_dependency:
  "deps_of (add_dependency st A dep level) A' =
     (if A' = A \<and> resolve_dep A dep level \<in> project_modules st
      then insert (resolve_dep A dep level) (deps_of st A) else deps_of st A')"
  by (auto simp: add_dependency_def deps_of_def Let_def startswith_def update_conv')

lemma add_dependency_unknown:
  "resolve_dep A dep level \<notin> project_modules st \<Longrightarrow> add_dependency st A dep level = st"
  by (auto simp: add_dependency_def Let_def)

lemma fold_add_dependency_fields:
  "python_files (fold (\<lambda>alias s. add_dependency s m alias 0) names st) = python_files st"
  "project_modules (fold (\<lambda>alias s. add_dependency s m alias 0) names st) = project_modules st"
  "functions_dict (fold (\<lambda>alias s. add_dependency s m alias 0) names st) = functions_dict st"
  "classes (fold (\<lambda>alias s. add_dependency s m alias 0) names st) = classes st"
  "main_entry_points (fold (\<lambda>alias s. add_dependency s m alias 0) names st) = main_entry_points st"
  "data_files (fold (\<lambda>alias s. add_dependency s m alias 0) names st) = data_files st"
  by (induction names arbitrary: st; simp add: add_dependency_fields)+

lemma deps_of_fold_add_dependency:
  "deps_of (fold (\<lambda>alias s. add_dependency s m alias 0) names st) m =
     deps_of st m \<union> ((\<lambda>alias. resolve_dep m alias 0) ` set names \<inter> project_modules st)"
  by (induction names arbitrary: st)
     (auto simp: deps_of_add_dependency add_dependency_fields)

lemma visit_fields:
  "python_files (visit m n st) = python_files st"
  "project_modules (visit m n st) = project_modules st"
  "main_entry_points (visit m n st) = main_entry_points st"
  "data_files (visit m n st) = data_files st"
  by (cases n; simp add: fold_add_dependency_fields add_dependency_fields split: option.splits)+

lemma deps_of_visit:
  "deps_of (visit m n st) m = deps_of st m \<union> (import_targets m n \<inter> project_modules st)"
proof (cases n)
  case (Import names)
  then show ?thesis by (simp add: deps_of_fold_add_dependency)
next
  case (ImportFrom modname level names)
  then show ?thesis
    by (cases modname) (auto simp: deps_of_add_dependency)
qed (simp_all add: deps_of_def)

lemma fold_visit_fields:
  "python_files (fold (visit m) ns st) = python_files st"
  "project_modules (fold (visit m) ns st) = project_modules st"
  "main_entry_points (fold (visit m) ns st) = main_entry_points st"
  "data_files (fold (visit m) ns st) = data_files st"
  by (induction ns arbitrary: st; simp add: visit_fields)+

lemma deps_of_fold_visit:
  "deps_of (fold (visit m) ns st) m =
     deps_of st m \<union> ((\<Union>n\<in>set ns. import_targets m n) \<inter> project_modules st)"
  by (induction ns arbitrary: st) (auto simp: deps_of_visit visit_fields)

lemma slice_to_neg: "0 < k \<Longrightarrow> slice_to xs (- int k) = rev (drop k (rev xs))"
  by (auto simp: slice_to_def rev_drop max_def nat_diff_distrib')

lemma analyze_file_parses:
  "analyze_file st (p, Parses content tree) =
     fold (visit (module_name_of p)) (walk tree)
       (if py_in main_guard content
        then st\<lparr>main_entry_points := main_entry_points st @ [module_name_of p]\<rparr> else st)"
  by (simp only: analyze_file_def fst_conv snd_conv analyze_body.simps sum.case)

lemma analyze_file_fails:
  "analyze_file st (p, ParseFails content) = st"
  "analyze_file st (p, ReadFails) = st"
  by (simp_all only: analyze_file_def fst_conv snd_conv analyze_body.simps sum.case)

lemma guard_mark_fields:
  "deps_of (if c then st\<lparr>main_entry_points := e\<rparr> else st) m = deps_of st m"
  "project_modules (if c then st\<lparr>main_entry_points := e\<rparr> else st) = project_modules st"
  "python_files (if c then st\<lparr>main_entry_points := e\<rparr> else st) = python_files st"
  "functions_dict (if c then st\<lparr>main_entry_points := e\<rparr> else st) = functions_dict st"
  "classes (if c then st\<lparr>main_entry_points := e\<rparr> else st) = classes st"
  "data_files (if c then st\<lparr>main_entry_points := e\<rparr> else st) = data_files st"
  by (simp_all add: deps_of_def)

lemma deps_of_analyze_file:
  "deps_of (analyze_file st (p, Parses content tree)) (module_name_of p) =
     deps_of st (module_name_of p) \<union>
     ((\<Union>n\<in>set (subnodes tree). import_targets (module_name_of p) n) \<inter> project_modules st)"
  by (simp only: analyze_file_parses deps_of_fold_visit set_walk guard_mark_fields)

lemma main_entry_points_analyze_file:
  "main_entry_points (analyze_file st (p, Parses content tree)) =
     main_entry_points st @ (if py_in main_guard content then [module_name_of p] else [])"
proof -
  have "main_entry_points (analyze_file st (p, Parses content tree)) =
        main_entry_points (if py_in main_guard content
          then st\<lparr>main_entry_points := main_entry_points st @ [module_name_of p]\<rparr> else st)"
    by (simp only: analyze_file_parses fold_visit_fields)
  then show ?thesis by simp
qed

lemma python_files_analyze_file: "python_files (analyze_file st f) = python_files st"
proof (cases f)
  case (Pair p r)
  show ?thesis
  proof (cases r)
    case ReadFails
    with Pair show ?thesis by (simp only: analyze_file_fails)
  next
    case (ParseFails content)
    with Pair show ?thesis by (simp only: analyze_file_fails)
  next
    case (Parses content tree)
    with Pair show ?thesis
      by (simp only: analyze_file_parses fold_visit_fields guard_mark_fields)
  qed
qed

lemma python_files_fold_analyze:
  "python_files (fold (\<lambda>file s. analyze_file s file) files st) = python_files st"
  by (induction files arbitrary: st) (simp_all add: python_files_analyze_file)

lemma analyze_file_raises:
  "analyze_body st (module_name_of p) r = Inl e \<Longrightarrow> analyze_file st (p, r) = st"
  by (simp only: analyze_file_def fst_conv snd_conv sum.case)

section \<open>Class and function records after a walk\<close>

lemma visit_sets_class_flag:
  "\<exists>r. map_of (classes (visit m (ClassDef name pre body post) st)) (m @ ''.'' @ name) = Some r
       \<and> is_strategy r = (py_in ''strategy'' (lower name) \<or> py_in ''strategies'' m)"
  by (simp add: update_conv')

lemma visit_keeps_class_flag:
  assumes "\<exists>r. map_of (classes st) (m @ ''.'' @ name) = Some r
       \<and> is_strategy r = (py_in ''strategy'' (lower name) \<or> py_in ''strategies'' m)"
  shows "\<exists>r. map_of (classes (visit m x st)) (m @ ''.'' @ name) = Some r
       \<and> is_strategy r = (py_in ''strategy'' (lower name) \<or> py_in ''strategies'' m)"
  using assms
  by (cases x)
     (auto simp: update_conv' fold_add_dependency_fields add_dependency_fields split: option.splits)

lemma fold_visit_keeps_class_flag:
  assumes "\<exists>r. map_of (classes st) (m @ ''.'' @ name) = Some r
       \<and> is_strategy r = (py_in ''strategy'' (lower name) \<or> py_in ''strategies'' m)"
  shows "\<exists>r. map_of (classes (fold (visit m) ns st)) (m @ ''.'' @ name) = Some r
       \<and> is_strategy r = (py_in ''strategy'' (lower name) \<or> py_in ''strategies'' m)"
  using assms
proof (induction ns arbitrary: st)
  case Nil
  then show ?case by simp
next
  case (Cons x xs)
  from Cons.prems have "\<exists>r. map_of (classes (visit m x st)) (m @ ''.'' @ name) = Some r
       \<and> is_strategy r = (py_in ''strategy'' (lower name) \<or> py_in ''strategies'' m)"
    by (rule visit_keeps_class_flag)
  then show ?case
    using Cons.IH [of "visit m x st"] by simp
qed

lemma fold_visit_class_flag:
  assumes "ClassDef name pre body post \<in> set ns"
  shows "\<exists>r. map_of (classes (fold (visit m) ns st)) (m @ ''.'' @ name) = Some r
       \<and> is_strategy r = (py_in ''strategy'' (lower name) \<or> py_in ''strategies'' m)"
  using assms
proof (induction ns arbitrary: st)
  case Nil
  then show ?case by simp
next
  case (Cons x xs)
  show ?case
  proof (cases "x = ClassDef name pre body post")
    case True
    have "\<exists>r. map_of (classes (fold (visit m) xs (visit m (ClassDef name pre body post) st))) (m @ ''.'' @ name) = Some r
       \<and> is_strategy r = (py_in ''strategy'' (lower name) \<or> py_in ''strategies'' m)"
      using visit_sets_class_flag by (rule fold_visit_keeps_class_flag)
    with True show ?thesis by simp
  next
    case False
    with Cons.prems have "ClassDef name pre body post \<in> set xs" by simp
    then show ?thesis
      using Cons.IH [of "visit m x st"] by simp
  qed
qed

lemma node_complexity_pos: "Suc 0 \<le> node_complexity n"
  by (simp add: node_complexity_def)

lemma visit_sets_function_record:
  assumes "FunctionDef name cs \<in> S"
  shows "\<exists>r. map_of (functions_dict (visit m (FunctionDef name cs) st)) (m @ ''.'' @ name) = Some r
       \<and> 1 \<le> complexity r
       \<and> (\<exists>cs'. FunctionDef name cs' \<in> S \<and> complexity r = node_complexity (FunctionDef name cs'))"
  using assms by (auto simp: update_conv' node_complexity_pos)

lemma visit_keeps_function_record:
  assumes "x \<in> S"
    and "\<exists>r. map_of (functions_dict st) (m @ ''.'' @ name) = Some r
       \<and> 1 \<le> complexity r
       \<and> (\<exists>cs'. FunctionDef name cs' \<in> S \<and> complexity r = node_complexity (FunctionDef name cs'))"
  shows "\<exists>r. map_of (functions_dict (visit m x st)) (m @ ''.'' @ name) = Some r
       \<and> 1 \<le> complexity r
       \<and> (\<exists>cs'. FunctionDef name cs' \<in> S \<and> complexity r = node_complexity (FunctionDef name cs'))"
proof (cases x)
  case (FunctionDef name' cs')
  show ?thesis
  proof (cases "name' = name")
    case True
    with FunctionDef assms(1) show ?thesis
      using visit_sets_function_record [of name cs' S m st] by simp
  next
    case False
    with FunctionDef assms(2) show ?thesis
      by (simp add: update_conv')
  qed
qed (use assms(2) in \<open>simp_all add: fold_add_dependency_fields add_dependency_fields split: option.splits\<close>)

lemma fold_visit_keeps_function_record:
  assumes "set ns \<subseteq> S"
    and "\<exists>r. map_of (functions_dict st) (m @ ''.'' @ name) = Some r
       \<and> 1 \<le> complexity r
       \<and> (\<exists>cs'. FunctionDef name cs' \<in> S \<and> complexity r = node_complexity (FunctionDef name cs'))"
  shows "\<exists>r. map_of (functions_dict (fold (visit m) ns st)) (m @ ''.'' @ name) = Some r
       \<and> 1 \<le> complexity r
       \<and> (\<exists>cs'. FunctionDef name cs' \<in> S \<and> complexity r = node_complexity (FunctionDef name cs'))"
  using assms
proof (induction ns arbitrary: st)
  case Nil
  then show ?case by simp
next
  case (Cons x xs)
  from Cons.prems have "x \<in> S" and sub: "set xs \<subseteq> S"
    by simp_all
  from \<open>x \<in> S\<close> Cons.prems(2)
  have "\<exists>r. map_of (functions_dict (visit m x st)) (m @ ''.'' @ name) = Some r
       \<and> 1 \<le> complexity r
       \<and> (\<exists>cs'. FunctionDef name cs' \<in> S \<and> complexity r = node_complexity (FunctionDef name cs'))"
    by (rule visit_keeps_function_record)
  with sub show ?case
    using Cons.IH [of "visit m x st"] by simp
qed

lemma fold_visit_function_record:
  assumes "FunctionDef name cs \<in> set ns" and "set ns \<subseteq> S"
  shows "\<exists>r. map_of (functions_dict (fold (visit m) ns st)) (m @ ''.'' @ name) = Some r
       \<and> 1 \<le> complexity r
       \<and> (\<exists>cs'. FunctionDef name cs' \<in> S \<and> complexity r = node_complexity (FunctionDef name cs'))"
  using assms
proof (induction ns arbitrary: st)
  case Nil
  then show ?case by simp
next
  case (Cons x xs)
  from Cons.prems have sub: "set xs \<subseteq> S" and "x \<in> S"
    by simp_all
  show ?case
  proof (cases "x = FunctionDef name cs")
    case True
    with \<open>x \<in> S\<close> have "FunctionDef name cs \<in> S" by simp
    then have "\<exists>r. map_of (functions_dict (visit m (FunctionDef name cs) st)) (m @ ''.'' @ name) = Some r
       \<and> 1 \<le> complexity r
       \<and> (\<exists>cs'. FunctionDef name cs' \<in> S \<and> complexity r = node_complexity (FunctionDef name cs'))"
      by (rule visit_sets_function_record)
    with sub have "\<exists>r. map_of (functions_dict (fold (visit m) xs (visit m (FunctionDef name cs) st))) (m @ ''.'' @ name) = Some r
       \<and> 1 \<le> complexity r
       \<and> (\<exists>cs'. FunctionDef name cs' \<in> S \<and> complexity r = node_complexity (FunctionDef name cs'))"
      by (rule fold_visit_keeps_function_record)
    with True show ?thesis by simp
  next
    case False
    with Cons.prems have "FunctionDef name cs \<in> set xs" by simp
    then show ?thesis
      using Cons.IH [of "visit m x st"] sub by simp
  qed
qed

section \<open>Discovery of data files\<close>

lemma data_files_discover_file_mono:
  "set (data_files st) \<subseteq> set (data_files (discover_file dp entry st))"
  by (auto simp: discover_file_def Let_def)

lemma data_files_fold_discover_file_mono:
  "set (data_files st) \<subseteq> set (data_files (fold (discover_file dp) files st))"
proof (induction files arbitrary: st)
  case Nil
  show ?case by simp
next
  case (Cons entry files)
  have "set (data_files st) \<subseteq> set (data_files (discover_file dp entry st))"
    by (rule data_files_discover_file_mono)
  also have "\<dots> \<subseteq> set (data_files (fold (discover_file dp) files (discover_file dp entry st)))"
    by (rule Cons.IH)
  finally show ?case by simp
qed

lemma data_files_discover_mono:
  "set (data_files st) \<subseteq> set (data_files (discover_dir dp t st))"
  "set (data_files st) \<subseteq> set (data_files (discover_subdirs dp ds st))"
proof (induction dp t st and dp ds st rule: discover_dir_discover_subdirs.induct)
  case (1 dirpath files dirs st)
  have "set (data_files st) \<subseteq> set (data_files (fold (discover_file dirpath) files st))"
    by (rule data_files_fold_discover_file_mono)
  with 1 show ?case by (simp only: discover_dir.simps)
next
  case (2 dirpath st)
  show ?case by simp
next
  case (3 dirpath d sub rest st)
  show ?case
  proof (cases "d \<in> set excluded_dirs")
    case True
    with 3(2) show ?thesis by simp
  next
    case False
    with 3(1) have "set (data_files st) \<subseteq> set (data_files (discover_dir (dirpath @ [d]) sub st))"
      by simp
    with 3(2) False show ?thesis by (simp only: discover_subdirs.simps if_False)
  qed
qed

lemma data_file_in_fold_discover_file:
  assumes "(name, r) \<in> set files" "\<not> endswith name ''.py''" "list_ex (endswith name) data_extensions"
  shows "(dp, name) \<in> set (data_files (fold (discover_file dp) files st))"
  using assms(1)
proof (induction files arbitrary: st)
  case Nil
  then show ?case by simp
next
  case (Cons entry files)
  show ?case
  proof (cases "entry = (name, r)")
    case True
    with assms(2,3) have "(dp, name) \<in> set (data_files (discover_file dp entry st))"
      by (simp add: discover_file_def Let_def)
    then show ?thesis
      using data_files_fold_discover_file_mono [of "discover_file dp entry st" dp files] by auto
  next
    case False
    with Cons.prems have "(name, r) \<in> set files" by simp
    then show ?thesis
      using Cons.IH by simp
  qed
qed

lemma data_file_discovered:
  assumes "(name, r) \<in> set files" "\<not> endswith name ''.py''" "list_ex (endswith name) data_extensions"
  shows "(q, Dir files dirs) \<in> set (walked_dirs dp t) \<Longrightarrow> (q, name) \<in> set (data_files (discover_dir dp t st))"
    and "(q, Dir files dirs) \<in> set (walked_subdirs dp ds) \<Longrightarrow> (q, name) \<in> set (data_files (discover_subdirs dp ds st))"
proof (induction dp t st and dp ds st rule: discover_dir_discover_subdirs.induct)
  case (1 dirpath fs sds st)
  from 1(2) consider "(q, Dir files dirs) = (dirpath, Dir fs sds)" | "(q, Dir files dirs) \<in> set (walked_subdirs dirpath sds)"
    by auto
  then show ?case
  proof cases
    case 1
    with assms have "(q, name) \<in> set (data_files (fold (discover_file dirpath) fs st))"
      using data_file_in_fold_discover_file [of name r fs dirpath st] by simp
    then show ?thesis
      using data_files_discover_mono(2) [of "fold (discover_file dirpath) fs st" dirpath sds] by auto
  next
    case 2
    then show ?thesis
      using "1.IH" by simp
  qed
next
  case (2 dirpath st)
  then show ?case by simp
next
  case (3 dirpath d sub rest st)
  from 3(3) consider "d \<notin> set excluded_dirs" "(q, Dir files dirs) \<in> set (walked_dirs (dirpath @ [d]) sub)"
    | "(q, Dir files dirs) \<in> set (walked_subdirs dirpath rest)"
    by (auto split: if_splits)
  then show ?case
  proof cases
    case 1
    with 3(1) have "(q, name) \<in> set (data_files (discover_dir (dirpath @ [d]) sub st))"
      by simp
    then show ?thesis
      using 1(1) data_files_discover_mono(2) [of "discover_dir (dirpath @ [d]) sub st" dirpath rest]
      by auto
  next
    case 2
    then show ?thesis
      using 3(2) by simp
  qed
qed

lemma endswith_py_in: "endswith name ext \<Longrightarrow> py_in ext name"
  by (simp add: endswith_def py_in_def)

lemma newline_char: "''\<newline>'' = [CHR 0x0A]"
  by simp

section \<open>Properties\<close>

text \<open>
  C1. On the scenario the pass finds the modules \<open>pkg.a\<close> and \<open>pkg.b\<close> and records \<open>pkg.a.f\<close>
  with complexity 2. It records no dependency edge at all: a \<^verbatim>\<open>from\<close>-import whose module
  is empty is skipped by the test \<^verbatim>\<open>if node.module\<close>, and the imported names are never
  looked at.
\<close>

theorem scenario_result:
  "project_modules (run_analysis scenario_fs) = {''pkg.a'', ''pkg.b''}
   \<and> dependencies (run_analysis scenario_fs) = []
   \<and> functions_dict (run_analysis scenario_fs) = [(''pkg.a.f'', \<lparr>complexity = 2\<rparr>)]"
  by code_simp

theorem scenario_edge_counterexample:
  "''pkg.a'' \<notin> deps_of (run_analysis scenario_fs) ''pkg.b''"
  by code_simp

text \<open>
  C2. For a file that is read and parsed, the module is appended to the entry points exactly
  when the raw text contains the guard \<^verbatim>\<open>if __name__ == "__main__"\<close>; the tree plays no part.
  The test stands after \<^verbatim>\<open>ast.parse\<close> inside the same \<^verbatim>\<open>try\<close>, so a file that cannot be read
  or parsed is never marked, whatever its text.
\<close>

theorem entry_point_marking:
  "main_entry_points (analyze_file st (p, Parses content tree)) =
     main_entry_points st @ (if py_in main_guard content then [module_name_of p] else [])
   \<and> (module_name_of p \<in> set (main_entry_points (analyze_file st (p, Parses content tree))) \<longleftrightarrow>
        module_name_of p \<in> set (main_entry_points st) \<or> py_in main_guard content)
   \<and> main_entry_points (analyze_file st (p, ParseFails content)) = main_entry_points st
   \<and> main_entry_points (analyze_file st (p, ReadFails)) = main_entry_points st"
  by (simp add: main_entry_points_analyze_file analyze_file_fails)

theorem entry_point_marking_witness:
  "main_entry_points
     (analyze_file init (([], ''app.py''), Parses (main_guard @ '':'' @ [CHR 0x0A] @ ''    pass'' @ [CHR 0x0A])
        (Other [If [Other [Other [Other []], Other [], Other []], Other []]]))) = [''app'']
   \<and> main_entry_points (analyze_file init (([], ''lib.py''), Parses ''x = 1'' (Other [Other [Other [Other []], Other []]]))) = []"
proof -
  have g: "py_in main_guard (main_guard @ '':'' @ [CHR 0x0A] @ ''    pass'' @ [CHR 0x0A])"
    by (simp add: py_in_def)
  have ng: "\<not> py_in main_guard ''x = 1''"
    by code_simp
  have m: "module_name_of ([], ''app.py'') = ''app''"
    by code_simp
  have e: "main_entry_points init = []"
    by (simp add: init_def)
  from entry_point_marking [of init "([], ''app.py'')" "main_guard @ '':'' @ [CHR 0x0A] @ ''    pass'' @ [CHR 0x0A]"
         "Other [If [Other [Other [Other []], Other [], Other []], Other []]]"]
       entry_point_marking [of init "([], ''lib.py'')" "''x = 1''" "Other [Other [Other [Other []], Other []]]"]
       g ng m e
  show ?thesis by simp
qed

theorem entry_point_needs_parse_counterexample:
  "py_in main_guard (main_guard @ '':'')
   \<and> module_name_of ([], ''app.py'') \<notin>
       set (main_entry_points (analyze_file init (([], ''app.py''), ParseFails (main_guard @ '':''))))"
proof -
  have "py_in main_guard (main_guard @ '':'')"
    by (simp add: py_in_def)
  moreover have "main_entry_points (analyze_file init (([], ''app.py''), ParseFails (main_guard @ '':''))) = []"
    by (simp add: analyze_file_fails init_def)
  ultimately show ?thesis by simp
qed

text \<open>
  C3. Within \<^verbatim>\<open>_add_dependency\<close> an edge from the source module to the resolved target is
  recorded exactly when the resolved target is a member of the set of known modules: the
  test \<^verbatim>\<open>any(resolved.startswith(m) for m in modules if m == resolved)\<close> is membership. A
  resolved target outside that set, in particular one that is only a prefix or an
  extension of a known module, leaves the state as it was. Over a whole parsed file, the
  source module's edges after the analysis are the earlier ones together with the known
  modules that some import node of the tree resolves to.
\<close>

theorem dependency_edge_exact_match:
  "(B \<in> deps_of (add_dependency st A dep level) A \<longleftrightarrow>
      B \<in> deps_of st A \<or> (B = resolve_dep A dep level \<and> B \<in> project_modules st))
   \<and> (resolve_dep A dep level \<notin> project_modules st \<longrightarrow> add_dependency st A dep level = st)
   \<and> (B \<in> deps_of (analyze_file st (p, Parses content tree)) (module_name_of p) \<longleftrightarrow>
        B \<in> deps_of st (module_name_of p) \<or>
        (B \<in> project_modules st \<and> (\<exists>n\<in>set (subnodes tree). B \<in> import_targets (module_name_of p) n)))"
proof -
  have c1: "B \<in> deps_of (add_dependency st A dep level) A \<longleftrightarrow>
      B \<in> deps_of st A \<or> (B = resolve_dep A dep level \<and> B \<in> project_modules st)"
    by (auto simp: deps_of_add_dependency)
  have c2: "resolve_dep A dep level \<notin> project_modules st \<longrightarrow> add_dependency st A dep level = st"
    using add_dependency_unknown by blast
  have c3: "B \<in> deps_of (analyze_file st (p, Parses content tree)) (module_name_of p) \<longleftrightarrow>
        B \<in> deps_of st (module_name_of p) \<or>
        (B \<in> project_modules st \<and> (\<exists>n\<in>set (subnodes tree). B \<in> import_targets (module_name_of p) n))"
    unfolding deps_of_analyze_file by blast
  from c1 c2 c3 show ?thesis by (intro conjI)
qed

theorem dependency_edge_exact_match_witness:
  "''pkg.a'' \<in> deps_of (add_dependency (init\<lparr>project_modules := {''pkg.a'', ''pkg.b''}\<rparr>) ''pkg.b'' ''pkg.a'' 0) ''pkg.b''
   \<and> add_dependency (init\<lparr>project_modules := {''pkg.a'', ''pkg.b''}\<rparr>) ''pkg.b'' ''pkg'' 0
       = init\<lparr>project_modules := {''pkg.a'', ''pkg.b''}\<rparr>"
proof -
  let ?st = "init\<lparr>project_modules := {''pkg.a'', ''pkg.b''}\<rparr>"
  have r: "resolve_dep ''pkg.b'' ''pkg.a'' 0 = ''pkg.a''"
    by (simp add: resolve_dep_def)
  have known: "''pkg.a'' \<in> project_modules ?st"
    by simp
  have unknown: "resolve_dep ''pkg.b'' ''pkg'' 0 \<notin> project_modules ?st"
    by (simp add: resolve_dep_def)
  have e1: "''pkg.a'' \<in> deps_of (add_dependency ?st ''pkg.b'' ''pkg.a'' 0) ''pkg.b''"
    using dependency_edge_exact_match [of "''pkg.a''" ?st "''pkg.b''" "''pkg.a''" 0] r known
    by (simp only: simp_thms)
  have e2: "add_dependency ?st ''pkg.b'' ''pkg'' 0 = ?st"
    using dependency_edge_exact_match [of "''pkg.a''" ?st "''pkg.b''" "''pkg''" 0] unknown
    by blast
  from e1 e2 show ?thesis by (rule conjI)
qed

text \<open>
  C4. The complexity recorded for a function definition is one plus the number of
  conditional, for-loop, while-loop, \<^verbatim>\<open>try\<close> and \<^verbatim>\<open>with\<close> nodes anywhere in its subtree, the
  bodies of nested functions and classes included; it is exactly one when the subtree has
  no such node.
\<close>

theorem complexity_is_branch_count_plus_one:
  "node_complexity n = 1 + branch_count n
   \<and> branch_count n = length (filter is_branch (subnodes n))
   \<and> (node_complexity n = 1 \<longleftrightarrow> (\<forall>k\<in>set (subnodes n). \<not> is_branch k))
   \<and> map_of (functions_dict (visit m (FunctionDef name cs) st)) (m @ ''.'' @ name)
       = Some \<lparr>complexity = 1 + branch_count (FunctionDef name cs)\<rparr>"
proof -
  have c12: "node_complexity n = 1 + branch_count n
   \<and> branch_count n = length (filter is_branch (subnodes n))
   \<and> (node_complexity n = 1 \<longleftrightarrow> (\<forall>k\<in>set (subnodes n). \<not> is_branch k))"
    by (simp add: node_complexity_branch_count branch_count_subnodes filter_empty_conv)
  have c4: "map_of (functions_dict (visit m (FunctionDef name cs) st)) (m @ ''.'' @ name)
       = Some \<lparr>complexity = 1 + branch_count (FunctionDef name cs)\<rparr>"
    by (simp add: node_complexity_branch_count update_conv')
  from c12 c4 show ?thesis by blast
qed

theorem complexity_is_branch_count_plus_one_witness:
  "node_complexity
     (FunctionDef ''outer''
        [Other [],
         FunctionDef ''inner'' [Other [], If [Other [], Other []]],
         ClassDef ''C'' [] [FunctionDef ''m'' [Other [], While [Other [], Other []]]] []]) = 3
   \<and> node_complexity (FunctionDef ''plain'' [Other [], Other []]) = 1"
proof -
  let ?f = "FunctionDef ''outer''
        [Other [],
         FunctionDef ''inner'' [Other [], If [Other [], Other []]],
         ClassDef ''C'' [] [FunctionDef ''m'' [Other [], While [Other [], Other []]]] []]"
  let ?g = "FunctionDef ''plain'' [Other [], Other []]"
  have bf: "branch_count ?f = 2"
    by code_simp
  have bg: "branch_count ?g = 0"
    by code_simp
  have "node_complexity ?f = 1 + branch_count ?f"
    using complexity_is_branch_count_plus_one [of ?f] by (rule conjunct1)
  moreover have "node_complexity ?g = 1 + branch_count ?g"
    using complexity_is_branch_count_plus_one [of ?g] by (rule conjunct1)
  ultimately show ?thesis
    by (simp only: bf bg) simp
qed

text \<open>
  C5. Every class definition at any depth of a parsed file has a record under
  \<open>module.ClassName\<close> afterwards, and its flag is true exactly when the lower-cased class
  name contains \<open>strategy\<close> or the module's dotted path contains \<open>strategies\<close> as a substring
  (as written, case-sensitive). \<open>Helper\<close> in \<open>strategies.optimizer\<close> and \<open>FooStrategy\<close> in
  \<open>x.y\<close> are flagged, \<open>Foo\<close> in \<open>x.y\<close> is not.
\<close>

theorem class_strategy_flag:
  assumes "ClassDef name pre body post \<in> set (subnodes tree)"
  shows "\<exists>r. map_of (classes (analyze_file st (p, Parses content tree))) (module_name_of p @ ''.'' @ name) = Some r
           \<and> (is_strategy r \<longleftrightarrow> py_in ''strategy'' (lower name) \<or> py_in ''strategies'' (module_name_of p))"
proof -
  from assms have "ClassDef name pre body post \<in> set (walk tree)"
    by (simp only: set_walk)
  then show ?thesis
    unfolding analyze_file_parses by (rule fold_visit_class_flag)
qed

theorem class_strategy_flag_witness:
  "(\<exists>r. map_of (classes (analyze_file init (([''strategies''], ''optimizer.py''),
            Parses ''class Helper: pass'' (Other [ClassDef ''Helper'' [] [Other []] []]))))
          ''strategies.optimizer.Helper'' = Some r \<and> is_strategy r)
   \<and> (\<exists>r. map_of (classes (analyze_file init (([''x''], ''y.py''),
            Parses ''class FooStrategy: pass'' (Other [ClassDef ''FooStrategy'' [] [Other []] []]))))
          ''x.y.FooStrategy'' = Some r \<and> is_strategy r)
   \<and> (\<exists>r. map_of (classes (analyze_file init (([''x''], ''y.py''),
            Parses ''class Foo: pass'' (Other [ClassDef ''Foo'' [] [Other []] []]))))
          ''x.y.Foo'' = Some r \<and> \<not> is_strategy r)"
proof -
  have m1: "module_name_of ([''strategies''], ''optimizer.py'') = ''strategies.optimizer''"
    by code_simp
  have m2: "module_name_of ([''x''], ''y.py'') = ''x.y''"
    by code_simp
  have n1: "ClassDef ''Helper'' [] [Other []] [] \<in> set (subnodes (Other [ClassDef ''Helper'' [] [Other []] []]))"
    by code_simp
  have n2: "ClassDef ''FooStrategy'' [] [Other []] [] \<in> set (subnodes (Other [ClassDef ''FooStrategy'' [] [Other []] []]))"
    by code_simp
  have n3: "ClassDef ''Foo'' [] [Other []] [] \<in> set (subnodes (Other [ClassDef ''Foo'' [] [Other []] []]))"
    by code_simp
  have f1: "py_in ''strategy'' (lower ''Helper'') \<or> py_in ''strategies'' ''strategies.optimizer''"
    by code_simp
  have f2: "py_in ''strategy'' (lower ''FooStrategy'') \<or> py_in ''strategies'' ''x.y''"
    by code_simp
  have f3: "\<not> (py_in ''strategy'' (lower ''Foo'') \<or> py_in ''strategies'' ''x.y'')"
    by code_simp
  from class_strategy_flag [OF n1, of init "([''strategies''], ''optimizer.py'')" "''class Helper: pass''"] f1
  have w1: "\<exists>r. map_of (classes (analyze_file init (([''strategies''], ''optimizer.py''),
            Parses ''class Helper: pass'' (Other [ClassDef ''Helper'' [] [Other []] []]))))
          ''strategies.optimizer.Helper'' = Some r \<and> is_strategy r"
    unfolding m1 by (simp only: append.simps) blast
  from class_strategy_flag [OF n2, of init "([''x''], ''y.py'')" "''class FooStrategy: pass''"] f2
  have w2: "\<exists>r. map_of (classes (analyze_file init (([''x''], ''y.py''),
            Parses ''class FooStrategy: pass'' (Other [ClassDef ''FooStrategy'' [] [Other []] []]))))
          ''x.y.FooStrategy'' = Some r \<and> is_strategy r"
    unfolding m2 by (simp only: append.simps) blast
  from class_strategy_flag [OF n3, of init "([''x''], ''y.py'')" "''class Foo: pass''"] f3
  have w3: "\<exists>r. map_of (classes (analyze_file init (([''x''], ''y.py''),
            Parses ''class Foo: pass'' (Other [ClassDef ''Foo'' [] [Other []] []]))))
          ''x.y.Foo'' = Some r \<and> \<not> is_strategy r"
    unfolding m2 by (simp only: append.simps) blast
  from w1 w2 w3 show ?thesis by (intro conjI)
qed

theorem class_strategy_flag_counterexample:
  "is_strategy_spec ''Strategies'' ''x.y''
   \<and> map_of (classes (analyze_file init (([''x''], ''y.py''),
        Parses ''class Strategies: pass'' (Other [ClassDef ''Strategies'' [] [Other []] []]))))
       ''x.y.Strategies'' = Some \<lparr>methods = [], is_strategy = False\<rparr>
   \<and> \<not> is_strategy_spec ''Foo'' ''x.substrategies''
   \<and> map_of (classes (analyze_file init (([''x''], ''substrategies.py''),
        Parses ''class Foo: pass'' (Other [ClassDef ''Foo'' [] [Other []] []]))))
       ''x.substrategies.Foo'' = Some \<lparr>methods = [], is_strategy = True\<rparr>"
  by code_simp

text \<open>
  C6. A relative import of level greater than zero drops the last \<open>level\<close> dotted segments of
  the source module and joins what is left with the import target, or joins it alone when
  the target is empty. When the level is at least the number of segments nothing is left:
  the base is empty and the result is the target itself. Resolution is a total function;
  no slice or join raises. A level-2 import of \<open>x\<close> inside \<open>a.b.c\<close> resolves to \<open>a.x\<close>, and
  records nothing when \<open>a.x\<close> is not a known module.
\<close>

theorem relative_import_resolution:
  assumes "0 < level"
  shows "resolve_dep m dep level =
           join ''.'' (rev (drop level (rev (split_on (CHR ''.'') m))) @ (if dep = [] then [] else [dep]))
         \<and> (length (split_on (CHR ''.'') m) \<le> level \<longrightarrow>
              slice_to (split_on (CHR ''.'') m) (- int level) = [] \<and> resolve_dep m dep level = dep)
         \<and> resolve_dep ''a.b.c'' ''x'' 2 = ''a.x''
         \<and> (''a.x'' \<notin> project_modules st \<longrightarrow> add_dependency st ''a.b.c'' ''x'' 2 = st)"
proof -
  have ex: "resolve_dep ''a.b.c'' ''x'' 2 = ''a.x''"
    by (simp add: resolve_dep_def slice_to_def)
  have "''a.x'' \<notin> project_modules st \<longrightarrow> add_dependency st ''a.b.c'' ''x'' 2 = st"
    using add_dependency_unknown [of "''a.b.c''" "''x''" 2 st] by (simp add: ex)
  with assms ex show ?thesis
    by (auto simp: resolve_dep_def slice_to_neg Let_def)
qed

theorem relative_import_resolution_witness:
  "resolve_dep ''a.b.c'' ''x'' 5 = ''x'' \<and> resolve_dep ''a.b.c'' [] 1 = ''a.b''
   \<and> add_dependency init ''a.b.c'' ''x'' 2 = init"
proof -
  have len: "length (split_on (CHR ''.'') ''a.b.c'') \<le> 5"
    by simp
  have j: "join ''.'' (rev (drop 1 (rev (split_on (CHR ''.'') ''a.b.c''))) @ []) = ''a.b''"
    by simp
  have unknown: "''a.x'' \<notin> project_modules init"
    by (simp add: init_def)
  from relative_import_resolution [of 5 "''a.b.c''" "''x''" init]
       relative_import_resolution [of 1 "''a.b.c''" "[]" init]
       relative_import_resolution [of 2 "''a.b.c''" "''x''" init]
       len j unknown
  show ?thesis by simp
qed

text \<open>
  C7. After a parsed file is analysed, every function definition anywhere in its tree, nested
  ones included, has a record under the key \<open>module.functionName\<close>; its complexity is at
  least 1 and is the complexity of a function definition of that name in the same tree.
  The key does not tell apart definitions that share a name: they share one record.
\<close>

theorem function_record_per_name:
  assumes "FunctionDef name cs \<in> set (subnodes tree)"
  shows "\<exists>r. map_of (functions_dict (analyze_file st (p, Parses content tree)))
               (module_name_of p @ ''.'' @ name) = Some r
           \<and> 1 \<le> complexity r
           \<and> (\<exists>cs'. FunctionDef name cs' \<in> set (subnodes tree)
                  \<and> complexity r = node_complexity (FunctionDef name cs'))"
proof -
  from assms have "FunctionDef name cs \<in> set (walk tree)"
    by (simp only: set_walk)
  moreover have "set (walk tree) \<subseteq> set (subnodes tree)"
    by (simp only: set_walk subset_refl)
  ultimately show ?thesis
    unfolding analyze_file_parses by (rule fold_visit_function_record)
qed

theorem function_record_per_name_witness:
  "\<exists>r. map_of (functions_dict (analyze_file init (([''pkg''], ''a.py''),
          Parses ''def f():\<newline>    if True: pass\<newline>''
            (Other [FunctionDef ''f'' [Other [], If [Other [], Other []]]]))))
        ''pkg.a.f'' = Some r \<and> 1 \<le> complexity r"
proof -
  have m: "module_name_of ([''pkg''], ''a.py'') = ''pkg.a''"
    by code_simp
  have n: "FunctionDef ''f'' [Other [], If [Other [], Other []]]
           \<in> set (subnodes (Other [FunctionDef ''f'' [Other [], If [Other [], Other []]]]))"
    by code_simp
  from function_record_per_name [OF n, of init "([''pkg''], ''a.py'')" "''def f():\<newline>    if True: pass\<newline>''"]
  show ?thesis
    unfolding m by (simp only: append.simps) blast
qed

theorem function_record_per_name_counterexample:
  "FunctionDef ''run'' [Other [Other []], If [Other [Other []], Other []]]
     \<in> set (subnodes (Other
         [ClassDef ''A'' [] [FunctionDef ''run'' [Other [Other []], If [Other [Other []], Other []]]] [],
          ClassDef ''B'' [] [FunctionDef ''run'' [Other [Other []], Other []]] []]))
   \<and> node_complexity (FunctionDef ''run'' [Other [Other []], If [Other [Other []], Other []]]) = 2
   \<and> functions_dict (analyze_file init (([], ''m.py''),
        Parses ''class A:\<newline>    def run(self):\<newline>        if self: pass\<newline>class B:\<newline>    def run(self):\<newline>        pass\<newline>''
          (Other
            [ClassDef ''A'' [] [FunctionDef ''run'' [Other [Other []], If [Other [Other []], Other []]]] [],
             ClassDef ''B'' [] [FunctionDef ''run'' [Other [Other []], Other []]] []])))
     = [(''m.run'', \<lparr>complexity = 1\<rparr>)]"
  by code_simp

text \<open>
  C8. A file that cannot be parsed (or read) leaves the state exactly as it was: no function
  record, class record, entry point or dependency edge comes from it. Whenever the body of
  the \<^verbatim>\<open>try\<close> raises, the handler returns the state unchanged, so the pass is a total
  function of the discovered files. The list of discovered files is not touched by the
  analysis, so the failing file stays counted, and the result of the pass is the result of
  analysing the other files alone.
\<close>

theorem parse_failure_is_isolated:
  "analyze_file st (p, ParseFails content) = st
   \<and> analyze_file st (p, ReadFails) = st
   \<and> (analyze_body st (module_name_of p) r = Inl e \<longrightarrow> analyze_file st (p, r) = st)
   \<and> python_files (analyze_all st) = python_files st
   \<and> (\<exists>s. generate_summary_stats (analyze_all st) = Inr s \<and> files_analyzed s = length (python_files st))
   \<and> (python_files st = before @ (p, ParseFails content) # after \<longrightarrow>
        analyze_all st = fold (\<lambda>file s. analyze_file s file) (before @ after) st)"
proof -
  have c3: "analyze_body st (module_name_of p) r = Inl e \<longrightarrow> analyze_file st (p, r) = st"
    using analyze_file_raises by blast
  have c4: "python_files (analyze_all st) = python_files st"
    by (simp only: analyze_all_def python_files_fold_analyze)
  have c5: "\<exists>s. generate_summary_stats (analyze_all st) = Inr s \<and> files_analyzed s = length (python_files st)"
    by (auto simp: generate_summary_stats_def Let_def truediv_def c4)
  have c6: "python_files st = before @ (p, ParseFails content) # after \<longrightarrow>
        analyze_all st = fold (\<lambda>file s. analyze_file s file) (before @ after) st"
    by (simp add: analyze_all_def analyze_file_fails)
  from c3 c4 c5 c6 show ?thesis
    by (simp only: analyze_file_fails simp_thms)
qed

theorem parse_failure_is_isolated_witness:
  "analyze_all (init\<lparr>python_files := [(([], ''bad.py''), ParseFails ''def (:'')]\<rparr>)
     = init\<lparr>python_files := [(([], ''bad.py''), ParseFails ''def (:'')]\<rparr>
   \<and> length (python_files (analyze_all (init\<lparr>python_files := [(([], ''bad.py''), ParseFails ''def (:'')]\<rparr>))) = 1"
proof -
  let ?st = "init\<lparr>python_files := [(([], ''bad.py''), ParseFails ''def (:'')]\<rparr>"
  have h: "python_files ?st = [] @ (([], ''bad.py''), ParseFails ''def (:'') # []"
    by simp
  have a: "analyze_all ?st = fold (\<lambda>file s. analyze_file s file) ([] @ []) ?st"
    using parse_failure_is_isolated [of ?st "([], ''bad.py'')" "''def (:''" _ _ "[]" "[]"] h by blast
  have b: "python_files (analyze_all ?st) = python_files ?st"
    using parse_failure_is_isolated [of ?st "([], ''bad.py'')" "''def (:''" ReadFails ReadException "[]" "[]"] by blast
  from a b show ?thesis by simp
qed

text \<open>
  C9. Every file met by the walk whose name does not end in \<open>.py\<close> and ends in one of
  \<open>.csv\<close>, \<open>.xlsx\<close>, \<open>.json\<close>, \<open>.yaml\<close> is recorded as a data file and appears in the data-flow
  table. Its kind is found by substring tests on the file name in the order \<open>.csv\<close>,
  \<open>.xlsx\<close>, \<open>.yaml\<close>, with JSON as the remaining case: tabular, then spreadsheet, then
  configuration, then structured data.
\<close>

theorem data_file_recorded_with_kind:
  assumes "(q, Dir files dirs) \<in> set (walked_dirs [] fs)"
    and "(name, r) \<in> set files"
    and "\<not> endswith name ''.py''"
    and "ext \<in> set data_extensions"
    and "endswith name ext"
  shows "(q, name) \<in> set (data_files (discover_files fs st))
         \<and> (rel_path (q, name), file_type name) \<in> set (data_flow_rows (discover_files fs st))
         \<and> (py_in ''.csv'' name \<longrightarrow> file_type name = ''Tabular Data'')
         \<and> (\<not> py_in ''.csv'' name \<and> py_in ''.xlsx'' name \<longrightarrow> file_type name = ''Excel Sheet'')
         \<and> (\<not> py_in ''.csv'' name \<and> \<not> py_in ''.xlsx'' name \<and> py_in ''.yaml'' name \<longrightarrow>
               file_type name = ''Config'')
         \<and> (\<not> py_in ''.csv'' name \<and> \<not> py_in ''.xlsx'' name \<and> \<not> py_in ''.yaml'' name \<longrightarrow>
               file_type name = ''JSON Data'' \<and> ext = ''.json'')"
proof -
  from assms(4,5) have "list_ex (endswith name) data_extensions"
    by (auto simp: list_ex_iff)
  with assms(1,2,3) have rec: "(q, name) \<in> set (data_files (discover_files fs st))"
    unfolding discover_files_def by (rule data_file_discovered(1) [rotated 3])
  then have row: "(rel_path (q, name), file_type name) \<in> set (data_flow_rows (discover_files fs st))"
    by (force simp: data_flow_rows_def)
  from assms(4,5) have "py_in ext name" and "ext = ''.csv'' \<or> ext = ''.xlsx'' \<or> ext = ''.json'' \<or> ext = ''.yaml''"
    by (auto simp: endswith_py_in data_extensions_def)
  then have last: "\<not> py_in ''.csv'' name \<and> \<not> py_in ''.xlsx'' name \<and> \<not> py_in ''.yaml'' name \<longrightarrow> ext = ''.json''"
    by auto
  from rec row last show ?thesis
    by (simp add: file_type_def)
qed

theorem data_file_recorded_with_kind_witness:
  "([''conf''], ''settings.yaml.json'')
     \<in> set (data_files (discover_files (Dir [] [(''conf'', Dir [(''settings.yaml.json'', ReadFails)] [])]) init))
   \<and> file_type ''settings.yaml.json'' = ''Config''"
proof -
  let ?fs = "Dir [] [(''conf'', Dir [(''settings.yaml.json'', ReadFails)] [])]"
  have h1: "([''conf''], Dir [(''settings.yaml.json'', ReadFails)] []) \<in> set (walked_dirs [] ?fs)"
    by code_simp
  have h2: "(''settings.yaml.json'', ReadFails) \<in> set [(''settings.yaml.json'', ReadFails)]"
    by simp
  have h3: "\<not> endswith ''settings.yaml.json'' ''.py''"
    by code_simp
  have h4: "''.json'' \<in> set data_extensions"
    by code_simp
  have h5: "endswith ''settings.yaml.json'' ''.json''"
    by code_simp
  have k: "\<not> py_in ''.csv'' ''settings.yaml.json'' \<and> \<not> py_in ''.xlsx'' ''settings.yaml.json''
           \<and> py_in ''.yaml'' ''settings.yaml.json''"
    by code_simp
  from data_file_recorded_with_kind [OF h1 h2 h3 h4 h5, of init] k
  show ?thesis by blast
qed

theorem data_file_kind_priority_counterexample:
  "endswith ''settings.yaml.json'' ''.json''
   \<and> file_type_spec ''settings.yaml.json'' = ''JSON Data''
   \<and> file_type ''settings.yaml.json'' = ''Config''"
  by code_simp

text \<open>
  C10. The summary statistics never divide by zero: the division is guarded by
  \<^verbatim>\<open>total_funcs > 0\<close>, so the computation returns for every state, and with no recorded
  function the average complexity is 0.
\<close>

theorem summary_stats_total:
  "(\<exists>s. generate_summary_stats st = Inr s)
   \<and> (functions_dict st = [] \<longrightarrow>
        (\<exists>s. generate_summary_stats st = Inr s \<and> total_funcs s = 0 \<and> avg_complexity s = 0))"
  by (auto simp: generate_summary_stats_def Let_def truediv_def)

theorem summary_stats_total_witness:
  "\<exists>s. generate_summary_stats init = Inr s \<and> total_funcs s = 0 \<and> avg_complexity s = 0"
proof -
  have "functions_dict init = []"
    by (simp add: init_def)
  with summary_stats_total [of init] show ?thesis by blast
qed

end
